theory Spec2Isabelle
  imports Complex_Main "HOL-Library.Sublist"
begin

section \<open>The book library application (main.py)\<close>

text \<open>
  The application is a set of Flask view functions over two database tables and a login
  session. Each view is modelled as a function from the request and the state before it
  to the state after it and the response. The tables are lists of rows in table order,
  the session is the user identifier that the login library keeps in the cookie.
\<close>

subsection \<open>Values of the libraries\<close>

text \<open>
  A Python float: the finite values carry their exact rational value, the three special
  values are kept apart because the comparisons of the code treat them differently.
\<close>

datatype pyfloat = Num rat | PosInf | NegInf | NaN

text \<open>Python's \<^verbatim>\<open>a <= b\<close> on floats: every comparison with NaN is false.\<close>

fun fle :: "pyfloat \<Rightarrow> pyfloat \<Rightarrow> bool" where
  "fle NaN _ = False"
| "fle _ NaN = False"
| "fle NegInf _ = True"
| "fle _ PosInf = True"
| "fle (Num a) (Num b) = (a \<le> b)"
| "fle (Num a) NegInf = False"
| "fle PosInf (Num b) = False"
| "fle PosInf NegInf = False"

text \<open>Python's truth value of a float: only zero is false.\<close>

fun truthy :: "pyfloat \<Rightarrow> bool" where
  "truthy (Num a) = (a \<noteq> 0)"
| "truthy _ = True"

text \<open>
  The library routines the views call are not part of the repository; they are taken as
  parameters, so that every theorem holds for whatever they compute:
  \<^item> \<open>email_ok\<close>: the check of the form library's \<^verbatim>\<open>Email()\<close> validator;
  \<^item> \<open>py_float\<close>: Python's \<^verbatim>\<open>float(s)\<close> on a string, \<open>None\<close> when it raises ValueError;
  \<^item> \<open>generate_password_hash\<close>: werkzeug's routine, applied to the salt it draws and the
    password;
  \<^item> \<open>check_password_hash\<close>: werkzeug's routine, applied to the stored hash and the
    password;
  \<^item> \<open>sql_int\<close>: the integer the database reads a text parameter as when it is compared
    with an INTEGER column, \<open>None\<close> when the text denotes none.
\<close>

record env =
  email_ok :: "string \<Rightarrow> bool"
  py_float :: "string \<Rightarrow> pyfloat option"
  generate_password_hash :: "string \<Rightarrow> string \<Rightarrow> string"
  check_password_hash :: "string \<Rightarrow> string \<Rightarrow> bool"
  sql_int :: "string \<Rightarrow> nat option"

subsection \<open>Tables, session, requests and responses\<close>

text \<open>class User: id, email, password, name.\<close>

record user =
  u_id :: nat
  u_email :: string
  u_password :: string
  u_name :: string

text \<open>class Book: id, title, author, rating, user_id.\<close>

record book =
  b_id :: nat
  b_title :: string
  b_author :: string
  b_rating :: pyfloat
  b_user_id :: nat

record state =
  users :: "user list"
  books :: "book list"
  session :: "nat option"
  flashes :: "string list"

datatype http_method = GET | POST

text \<open>
  A request: its method, the submitted form (\<^verbatim>\<open>request.form\<close>), whether the CSRF token that
  every FlaskForm checks is valid, and the salt the hash routine draws while serving it.
\<close>

record request =
  req_method :: http_method
  req_form :: "string \<Rightarrow> string option"
  req_csrf :: bool
  req_salt :: string

datatype endpoint = Home | Login

datatype failure = MultipleResultsFound | IntegrityError | MethodNotAllowed

datatype response =
    Redirect endpoint
  | Render_register
  | Render_login
  | Render_index "book list"
  | Render_add
  | Render_edit book
  | Abort failure

definition empty_state :: state where
  "empty_state = \<lparr>users = [], books = [], session = None, flashes = []\<rparr>"

subsection \<open>Forms\<close>

text \<open>The characters below 256 that Python's \<^verbatim>\<open>str.strip()\<close> removes.\<close>

definition py_isspace :: "char \<Rightarrow> bool" where
  "py_isspace c = (of_char c \<in> {9, 10, 11, 12, 13, 28, 29, 30, 31, 32, 133, 160 :: nat})"

definition strip :: "string \<Rightarrow> string" where
  "strip s = rev (dropWhile py_isspace (rev (dropWhile py_isspace s)))"

text \<open>
  The data of a text field: the submitted value, \<open>None\<close> when the field was not
  submitted.
\<close>

definition field :: "request \<Rightarrow> string \<Rightarrow> string option" where
  "field req k = req_form req k"

definition data :: "request \<Rightarrow> string \<Rightarrow> string" where
  "data req k = (case field req k of None \<Rightarrow> [] | Some s \<Rightarrow> s)"

text \<open>
  \<^verbatim>\<open>DataRequired()\<close>: the field's data is true in Python's sense and, for a string,
  is not only white space.
\<close>

definition DataRequired :: "string option \<Rightarrow> bool" where
  "DataRequired v = (case v of None \<Rightarrow> False | Some s \<Rightarrow> s \<noteq> [] \<and> strip s \<noteq> [])"

text \<open>\<^verbatim>\<open>Length(min, max)\<close>; \<open>None\<close> as maximum is the library's default of no maximum.\<close>

definition Length :: "nat \<Rightarrow> nat option \<Rightarrow> string option \<Rightarrow> bool" where
  "Length mn mx v =
     (let l = (case v of None \<Rightarrow> 0 | Some s \<Rightarrow> length s)
      in mn \<le> l \<and> (case mx of None \<Rightarrow> True | Some m \<Rightarrow> l \<le> m))"

text \<open>\<^verbatim>\<open>Email()\<close>: fails on missing data, otherwise asks the e-mail syntax check.\<close>

definition Email :: "env \<Rightarrow> string option \<Rightarrow> bool" where
  "Email E v = (case v of None \<Rightarrow> False | Some s \<Rightarrow> email_ok E s)"

text \<open>
  FlaskForm's \<^verbatim>\<open>validate_on_submit()\<close>: the request is a submission (POST is the only
  submitting method the routes admit) and the form validates, CSRF token included.
\<close>

definition is_submitted :: "request \<Rightarrow> bool" where
  "is_submitted req = (req_method req = POST)"

text \<open>class LoginForm.\<close>

definition LoginForm_validate :: "env \<Rightarrow> request \<Rightarrow> bool" where
  "LoginForm_validate E req =
     (req_csrf req
      \<and> DataRequired (field req ''email'') \<and> Email E (field req ''email'')
      \<and> DataRequired (field req ''password''))"

text \<open>class RegisterForm.\<close>

definition RegisterForm_validate :: "env \<Rightarrow> request \<Rightarrow> bool" where
  "RegisterForm_validate E req =
     (req_csrf req
      \<and> DataRequired (field req ''name'') \<and> Length 2 (Some 100) (field req ''name'')
      \<and> DataRequired (field req ''email'') \<and> Email E (field req ''email'')
      \<and> DataRequired (field req ''password'') \<and> Length 6 None (field req ''password''))"

text \<open>
  The data of BookForm's FloatField: \<^verbatim>\<open>float\<close> of the submitted text; \<open>None\<close> when the
  field was not submitted or the text did not convert (then the field also carries a
  processing error, and \<^verbatim>\<open>DataRequired\<close> fails on the missing data).
\<close>

definition rating_data :: "env \<Rightarrow> request \<Rightarrow> pyfloat option" where
  "rating_data E req = (case field req ''rating'' of None \<Rightarrow> None | Some s \<Rightarrow> py_float E s)"

text \<open>\<^verbatim>\<open>DataRequired()\<close> on the float field: the data is true in Python's sense.\<close>

definition DataRequired_float :: "pyfloat option \<Rightarrow> bool" where
  "DataRequired_float v = (case v of None \<Rightarrow> False | Some x \<Rightarrow> truthy x)"

text \<open>\<^verbatim>\<open>NumberRange(min, max)\<close>: the data is there, is not NaN and lies in the range.\<close>

definition NumberRange :: "rat \<Rightarrow> rat \<Rightarrow> pyfloat option \<Rightarrow> bool" where
  "NumberRange mn mx v =
     (case v of None \<Rightarrow> False | Some x \<Rightarrow> x \<noteq> NaN \<and> fle (Num mn) x \<and> fle x (Num mx))"

text \<open>class BookForm.\<close>

definition BookForm_validate :: "env \<Rightarrow> request \<Rightarrow> bool" where
  "BookForm_validate E req =
     (req_csrf req
      \<and> DataRequired (field req ''name'')
      \<and> DataRequired (field req ''author'')
      \<and> DataRequired_float (rating_data E req) \<and> NumberRange 0 10 (rating_data E req))"

subsection \<open>Session and store helpers\<close>

definition flash :: "string \<Rightarrow> state \<Rightarrow> state" where
  "flash m st = st\<lparr>flashes := flashes st @ [m]\<rparr>"

text \<open>load\_user: the first user row with the identifier.\<close>

definition load_user :: "state \<Rightarrow> nat \<Rightarrow> user option" where
  "load_user st i = find (\<lambda>u. u_id u = i) (users st)"

text \<open>
  \<^verbatim>\<open>current_user\<close>: the user the session's identifier loads; none when the session
  holds no identifier or the identifier loads nothing (the anonymous user).
\<close>

definition current_user :: "state \<Rightarrow> user option" where
  "current_user st = (case session st of None \<Rightarrow> None | Some i \<Rightarrow> load_user st i)"

definition login_user :: "user \<Rightarrow> state \<Rightarrow> state" where
  "login_user u st = st\<lparr>session := Some (u_id u)\<rparr>"

definition logout_user :: "state \<Rightarrow> state" where
  "logout_user st = st\<lparr>session := None\<rparr>"

text \<open>
  The decorator \<^verbatim>\<open>@login_required\<close>: an anonymous request is answered by the login
  manager (its notice is flashed, and the browser is sent to \<^verbatim>\<open>login_view\<close>); otherwise
  the view runs, here with the current user as an argument.
\<close>

definition login_required :: "(user \<Rightarrow> state \<Rightarrow> state \<times> response) \<Rightarrow> state \<Rightarrow> state \<times> response" where
  "login_required view st =
     (case current_user st of
        None \<Rightarrow> (flash ''Please log in to access this page.'' st, Redirect Login)
      | Some u \<Rightarrow> view u st)"

text \<open>
  The identifier of a new row of an integer primary key: one more than the largest
  identifier in the table, 1 in an empty table.
\<close>

definition next_id :: "nat list \<Rightarrow> nat" where
  "next_id ids = Suc (foldr max ids 0)"

subsection \<open>The views\<close>

definition register :: "env \<Rightarrow> request \<Rightarrow> state \<Rightarrow> state \<times> response" where
  "register E req st =
     (if is_submitted req \<and> RegisterForm_validate E req then
        (case find (\<lambda>u. u_email u = data req ''email'') (users st) of
           Some existing_user \<Rightarrow>
             (flash ''Email already registered. Please login.'' st, Redirect Login)
         | None \<Rightarrow>
             (let new_user = \<lparr>u_id = next_id (map u_id (users st)),
                              u_email = data req ''email'',
                              u_password = generate_password_hash E (req_salt req) (data req ''password''),
                              u_name = data req ''name''\<rparr>
              in (login_user new_user (st\<lparr>users := users st @ [new_user]\<rparr>), Redirect Home)))
      else (st, Render_register))"

definition login :: "env \<Rightarrow> request \<Rightarrow> state \<Rightarrow> state \<times> response" where
  "login E req st =
     (if is_submitted req \<and> LoginForm_validate E req then
        (case find (\<lambda>u. u_email u = data req ''email'') (users st) of
           Some u \<Rightarrow>
             (if check_password_hash E (u_password u) (data req ''password'')
              then (login_user u st, Redirect Home)
              else (flash ''Invalid email or password'' st, Redirect Login))
         | None \<Rightarrow> (flash ''Invalid email or password'' st, Redirect Login))
      else (st, Render_login))"

definition logout :: "state \<Rightarrow> state \<times> response" where
  "logout = login_required (\<lambda>u st. (logout_user st, Redirect Login))"

definition home :: "state \<Rightarrow> state \<times> response" where
  "home st =
     (case current_user st of
        Some u \<Rightarrow> (st, Render_index (filter (\<lambda>b. b_user_id b = u_id u) (books st)))
      | None \<Rightarrow> (st, Render_index []))"

text \<open>
  add: \<^verbatim>\<open>scalar_one_or_none()\<close> returns the only matching row, nothing when there is
  none, and raises when there are several. A missing rating cannot be stored (the column
  is not nullable).
\<close>

definition add_view :: "env \<Rightarrow> request \<Rightarrow> user \<Rightarrow> state \<Rightarrow> state \<times> response" where
  "add_view E req cu st =
     (if is_submitted req \<and> BookForm_validate E req then
        (case filter (\<lambda>b. b_title b = data req ''name'') (books st) of
           [] \<Rightarrow>
             (case rating_data E req of
                None \<Rightarrow> (st, Abort IntegrityError)
              | Some r \<Rightarrow>
                  (let new_book = \<lparr>b_id = next_id (map b_id (books st)),
                                   b_title = data req ''name'',
                                   b_author = data req ''author'',
                                   b_rating = r,
                                   b_user_id = u_id cu\<rparr>
                   in (st\<lparr>books := books st @ [new_book]\<rparr>, Redirect Home)))
         | [existing_book] \<Rightarrow> (st, Redirect Home)
         | _ \<Rightarrow> (st, Abort MultipleResultsFound))
      else (st, Render_add))"

definition add :: "env \<Rightarrow> request \<Rightarrow> state \<Rightarrow> state \<times> response" where
  "add E req = login_required (add_view E req)"

text \<open>
  The query of edit and delete: the first book whose identifier is the one the route's
  text denotes and whose owner is the current user.
\<close>

definition owned_book :: "env \<Rightarrow> string \<Rightarrow> user \<Rightarrow> state \<Rightarrow> book option" where
  "owned_book E book_id cu st =
     find (\<lambda>b. sql_int E book_id = Some (b_id b) \<and> b_user_id b = u_id cu) (books st)"

text \<open>
  \<^verbatim>\<open>float(request.form.get('rating'))\<close>: TypeError on a missing field and ValueError on
  a text that does not convert, both caught by the view.
\<close>

definition new_rating :: "env \<Rightarrow> request \<Rightarrow> pyfloat option" where
  "new_rating E req = (case req_form req ''rating'' of None \<Rightarrow> None | Some s \<Rightarrow> py_float E s)"

definition edit_view :: "env \<Rightarrow> request \<Rightarrow> string \<Rightarrow> user \<Rightarrow> state \<Rightarrow> state \<times> response" where
  "edit_view E req book_id cu st =
     (case owned_book E book_id cu st of
        None \<Rightarrow> (flash ''Book not found or access denied'' st, Redirect Home)
      | Some book_to_update \<Rightarrow>
          (if req_method req = POST then
             (case new_rating E req of
                None \<Rightarrow> (st, Render_edit book_to_update)
              | Some r \<Rightarrow>
                  (if fle (Num 0) r \<and> fle r (Num 10) then
                     (st\<lparr>books := map (\<lambda>b. if b_id b = b_id book_to_update
                                            then b\<lparr>b_rating := r\<rparr> else b) (books st)\<rparr>,
                      Redirect Home)
                   else (st, Render_edit book_to_update)))
           else (st, Render_edit book_to_update)))"

definition edit :: "env \<Rightarrow> request \<Rightarrow> string \<Rightarrow> state \<Rightarrow> state \<times> response" where
  "edit E req book_id = login_required (edit_view E req book_id)"

definition delete_view :: "env \<Rightarrow> string \<Rightarrow> user \<Rightarrow> state \<Rightarrow> state \<times> response" where
  "delete_view E book_id cu st =
     (case owned_book E book_id cu st of
        None \<Rightarrow> (flash ''Book not found or access denied'' st, Redirect Home)
      | Some book_to_delete \<Rightarrow>
          (st\<lparr>books := filter (\<lambda>b. b_id b \<noteq> b_id book_to_delete) (books st)\<rparr>, Redirect Home))"

definition delete :: "env \<Rightarrow> string \<Rightarrow> state \<Rightarrow> state \<times> response" where
  "delete E book_id = login_required (delete_view E book_id)"

subsection \<open>Routes\<close>

datatype route = R_register | R_login | R_logout | R_home | R_add | R_edit string | R_delete string

text \<open>
  The router calls a view only for a method its route declares: GET and POST for
  register, login, add and edit; GET for logout and home; POST for delete.
\<close>

definition dispatch :: "env \<Rightarrow> route \<Rightarrow> request \<Rightarrow> state \<Rightarrow> state \<times> response" where
  "dispatch E rt req st =
     (case rt of
        R_register \<Rightarrow> register E req st
      | R_login \<Rightarrow> login E req st
      | R_logout \<Rightarrow> (if req_method req = GET then logout st else (st, Abort MethodNotAllowed))
      | R_home \<Rightarrow> (if req_method req = GET then home st else (st, Abort MethodNotAllowed))
      | R_add \<Rightarrow> add E req st
      | R_edit book_id \<Rightarrow> edit E req book_id st
      | R_delete book_id \<Rightarrow>
          (if req_method req = POST then delete E book_id st else (st, Abort MethodNotAllowed)))"

text \<open>
  A sequence of requests. Requests of different browsers carry different session cookies,
  so each request comes with the session identifier it is served under.
\<close>

fun run :: "env \<Rightarrow> (nat option \<times> route \<times> request) list \<Rightarrow> state \<Rightarrow> state" where
  "run E [] st = st"
| "run E ((s, rt, req) # rs) st = run E rs (fst (dispatch E rt req (st\<lparr>session := s\<rparr>)))"

text \<open>
  The database: the two tables, which is what the application stores. The session and
  the flashed messages travel in the browser's cookie.
\<close>

definition db :: "state \<Rightarrow> user list \<times> book list" where
  "db st = (users st, books st)"

subsection \<open>Example data\<close>

text \<open>
  An instance of the library routines for running the views on examples: an address is
  accepted when it holds an at sign, \<^verbatim>\<open>float\<close> is given on the few texts the examples
  submit, the hash is the salt followed by the reversed password, and the store reads the
  texts 1 and 2 as integers.
\<close>

definition toy_env :: env where
  "toy_env = \<lparr>email_ok = (\<lambda>s. CHR ''@'' \<in> set s),
     py_float = (\<lambda>s. if s = ''0'' then Some (Num 0)
                      else if s = ''7'' then Some (Num 7)
                      else if s = ''9'' then Some (Num 9)
                      else if s = ''-1'' then Some (Num (- 1))
                      else if s = ''10.01'' then Some (Num (1001 / 100))
                      else if s = ''nan'' then Some NaN
                      else None),
     generate_password_hash = (\<lambda>salt pw. salt @ ''$'' @ rev pw),
     check_password_hash = (\<lambda>h pw. dropWhile (\<lambda>c. c \<noteq> CHR ''$'') h = ''$'' @ rev pw),
     sql_int = (\<lambda>s. if s = ''1'' then Some 1 else if s = ''2'' then Some 2 else None)\<rparr>"

text \<open>
  A valid submission of a form, and the requests, rows and states of the examples: Ann
  registers on the empty store and adds the book Dune; Bob is a second user.
\<close>

definition post_form :: "(string \<times> string) list \<Rightarrow> request" where
  "post_form kvs = \<lparr>req_method = POST, req_form = map_of kvs, req_csrf = True, req_salt = ''NaCl''\<rparr>"

definition register_a :: request where
  "register_a = post_form [(''name'', ''Ann''), (''email'', ''a@x.com''), (''password'', ''secret1'')]"


definition short_pw :: request where
  "short_pw = post_form [(''name'', ''Ann''), (''email'', ''a@x.com''), (''password'', ''abc'')]"

definition add_dune :: request where
  "add_dune = post_form [(''name'', ''Dune''), (''author'', ''Herbert''), (''rating'', ''9'')]"

definition add_zero :: request where
  "add_zero = post_form [(''name'', ''Emma''), (''author'', ''Austen''), (''rating'', ''0'')]"


definition edit_7 :: request where
  "edit_7 = post_form [(''rating'', ''7'')]"

definition edit_zero :: request where
  "edit_zero = post_form [(''rating'', ''0'')]"

definition ann :: user where
  "ann = \<lparr>u_id = 1, u_email = ''a@x.com'', u_password = ''NaCl$1terces'', u_name = ''Ann''\<rparr>"

definition bob :: user where
  "bob = \<lparr>u_id = 2, u_email = ''b@x.com'', u_password = ''NaCl$22retnuh'', u_name = ''Bob''\<rparr>"

definition dune :: book where
  "dune = \<lparr>b_id = 1, b_title = ''Dune'', b_author = ''Herbert'', b_rating = Num 9, b_user_id = 1\<rparr>"

definition st_ann :: state where
  "st_ann = \<lparr>users = [ann], books = [], session = Some 1, flashes = []\<rparr>"

definition st_dune :: state where
  "st_dune = \<lparr>users = [ann], books = [dune], session = Some 1, flashes = []\<rparr>"

definition st_two :: state where
  "st_two = \<lparr>users = [ann, bob], books = [dune], session = Some 2, flashes = []\<rparr>"

section \<open>Properties\<close>

subsection \<open>Lists, identifiers and the login gate\<close>

lemmas form_defs = is_submitted_def RegisterForm_validate_def LoginForm_validate_def
  BookForm_validate_def DataRequired_def DataRequired_float_def NumberRange_def Length_def
  Email_def field_def data_def rating_data_def strip_def py_isspace_def post_form_def

lemma foldr_max_ge: "x \<in> set xs \<Longrightarrow> x \<le> foldr max xs (0::nat)"
  by (induction xs) (auto simp: max_def)

lemma next_id_fresh: "next_id ids \<notin> set ids"
  using foldr_max_ge [of "next_id ids" ids] by (auto simp: next_id_def)

lemma flash_frame [simp]:
  "users (flash m st) = users st" "books (flash m st) = books st"
  "session (flash m st) = session st" "flashes (flash m st) = flashes st @ [m]"
  by (simp_all add: flash_def)

lemma login_required_anonymous:
  "current_user st = None \<Longrightarrow>
     login_required view st = (flash ''Please log in to access this page.'' st, Redirect Login)"
  by (simp add: login_required_def)

lemma login_required_user:
  "current_user st = Some cu \<Longrightarrow> login_required view st = view cu st"
  by (simp add: login_required_def)

lemma find_none_conv: "(find P xs = None) = (\<not> list_ex P xs)"
  by (auto simp: find_None_iff list_ex_iff)


lemma find_unique:
  assumes "distinct (map f xs)" and "x \<in> set xs" and "P x" and "\<And>y. P y \<Longrightarrow> f y = f x"
  shows "find P xs = Some x"
  using assms(1,2)
proof (induction xs)
  case Nil
  then show ?case by simp
next
  case (Cons a xs)
  show ?case
  proof (cases "a = x")
    case True
    with assms(3) show ?thesis by simp
  next
    case False
    with Cons.prems have in_xs: "x \<in> set xs" and "f a \<notin> f ` set xs" by auto
    then have "f a \<noteq> f x" by auto
    with assms(4) have "\<not> P a" by auto
    with Cons in_xs show ?thesis by simp
  qed
qed


lemma update_row:
  assumes "distinct (map f (pre @ x # post))"
  shows "map (\<lambda>b. if f b = f x then g b else b) (pre @ x # post) = pre @ g x # post"
proof -
  have "\<And>b. b \<in> set pre \<Longrightarrow> f b \<noteq> f x" "\<And>b. b \<in> set post \<Longrightarrow> f b \<noteq> f x"
    using assms by (fastforce simp: image_iff)+
  then have "map (\<lambda>b. if f b = f x then g b else b) pre = pre"
    and "map (\<lambda>b. if f b = f x then g b else b) post = post"
    by (simp_all add: map_idI)
  then show ?thesis by simp
qed

lemma delete_row:
  assumes "distinct (map f (pre @ x # post))"
  shows "filter (\<lambda>b. f b \<noteq> f x) (pre @ x # post) = pre @ post"
proof -
  have "\<And>b. b \<in> set pre \<Longrightarrow> f b \<noteq> f x" "\<And>b. b \<in> set post \<Longrightarrow> f b \<noteq> f x"
    using assms by (fastforce simp: image_iff)+
  then have "filter (\<lambda>b. f b \<noteq> f x) pre = pre" and "filter (\<lambda>b. f b \<noteq> f x) post = post"
    by (simp_all add: filter_id_conv)
  then show ?thesis by simp
qed

lemma fle_range: "(fle (Num 0) r \<and> fle r (Num 10)) = (\<exists>q. r = Num q \<and> 0 \<le> q \<and> q \<le> 10)"
  by (cases r) auto

subsection \<open>The examples, evaluated\<close>

lemma register_a_run: "register toy_env register_a empty_state = (st_ann, Redirect Home)"
  by (simp add: register_def register_a_def form_defs toy_env_def
     empty_state_def next_id_def login_user_def st_ann_def ann_def)

lemma current_user_ann: "current_user st_ann = Some ann"
  by (simp add: current_user_def load_user_def st_ann_def ann_def)

lemma current_user_dune: "current_user st_dune = Some ann"
  by (simp add: current_user_def load_user_def st_dune_def ann_def)

lemma current_user_two: "current_user st_two = Some bob"
  by (simp add: current_user_def load_user_def st_two_def ann_def bob_def)



lemma add_dune_valid: "is_submitted add_dune \<and> BookForm_validate toy_env add_dune"
  by (simp add: add_dune_def form_defs toy_env_def)


subsection \<open>Edit and delete of a book that is not the current user's\<close>

text \<open>
  Claim C1. When no book has the identifier the route names and the current user as its
  owner (there is no such book, or it is another user's), edit and delete both answer
  with the one flashed message "Book not found or access denied" and a redirect home,
  and neither table changes.
\<close>

theorem edit_delete_not_owned:
  assumes "current_user st = Some cu"
    and "\<not> list_ex (\<lambda>b. sql_int E book_id = Some (b_id b) \<and> b_user_id b = u_id cu) (books st)"
  shows "edit E req book_id st = (flash ''Book not found or access denied'' st, Redirect Home)
       \<and> delete E book_id st = (flash ''Book not found or access denied'' st, Redirect Home)
       \<and> db (flash ''Book not found or access denied'' st) = db st
       \<and> session (flash ''Book not found or access denied'' st) = session st"
proof -
  have "owned_book E book_id cu st = None"
    using assms(2) by (simp add: owned_book_def find_none_conv)
  then show ?thesis
    using assms(1)
    by (simp add: edit_def delete_def login_required_user edit_view_def delete_view_def db_def)
qed

theorem edit_delete_not_owned_witness:
  "current_user st_two = Some bob
   \<and> \<not> list_ex (\<lambda>b. sql_int toy_env ''1'' = Some (b_id b) \<and> b_user_id b = u_id bob) (books st_two)
   \<and> edit toy_env edit_7 ''1'' st_two = (flash ''Book not found or access denied'' st_two, Redirect Home)
   \<and> delete toy_env ''1'' st_two = (flash ''Book not found or access denied'' st_two, Redirect Home)
   \<and> books (flash ''Book not found or access denied'' st_two) = [dune]"
proof -
  have h2: "\<not> list_ex (\<lambda>b. sql_int toy_env ''1'' = Some (b_id b) \<and> b_user_id b = u_id bob) (books st_two)"
    by (simp add: st_two_def dune_def bob_def)
  from edit_delete_not_owned [OF current_user_two h2, of edit_7] current_user_two h2
  show ?thesis by (simp add: st_two_def)
qed

subsection \<open>The book views without a logged-in user\<close>

text \<open>
  Claim C2. Without an authenticated user the home view lists no books and changes
  nothing; add, edit and delete redirect to the login page, and the tables and the
  session stay as they were (only the login manager's notice is flashed).
\<close>

theorem anonymous_book_registry:
  assumes "current_user st = None"
  shows "home st = (st, Render_index [])
       \<and> add E req st = (flash ''Please log in to access this page.'' st, Redirect Login)
       \<and> edit E req book_id st = (flash ''Please log in to access this page.'' st, Redirect Login)
       \<and> delete E book_id st = (flash ''Please log in to access this page.'' st, Redirect Login)
       \<and> db (flash ''Please log in to access this page.'' st) = db st
       \<and> session (flash ''Please log in to access this page.'' st) = session st"
  using assms
  by (simp add: home_def add_def edit_def delete_def login_required_anonymous db_def)

theorem anonymous_book_registry_witness:
  "current_user empty_state = None
   \<and> home empty_state = (empty_state, Render_index [])
   \<and> snd (add toy_env add_dune empty_state) = Redirect Login
   \<and> snd (edit toy_env add_dune ''1'' empty_state) = Redirect Login
   \<and> snd (delete toy_env ''1'' empty_state) = Redirect Login
   \<and> db (fst (add toy_env add_dune empty_state)) = db empty_state
   \<and> db (fst (edit toy_env add_dune ''1'' empty_state)) = db empty_state
   \<and> db (fst (delete toy_env ''1'' empty_state)) = db empty_state"
proof -
  have h: "current_user empty_state = None"
    by (simp add: current_user_def empty_state_def)
  from anonymous_book_registry [OF h, of toy_env add_dune "''1''"] h
  show ?thesis by simp
qed

subsection \<open>Which ratings are accepted\<close>

text \<open>
  The edit view accepts a submitted rating exactly when it converts to a number between
  0 and 10, bounds included; otherwise it shows the edit form again and stores nothing.
  The add form accepts one exactly when it converts to a number above 0 and at most 10:
  its \<^verbatim>\<open>DataRequired()\<close> takes the number 0 for missing data.
\<close>

lemma edit_rating_accepted_iff:
  assumes "current_user st = Some cu" and "owned_book E book_id cu st = Some bk"
    and "req_method req = POST"
  shows "(snd (edit E req book_id st) = Redirect Home)
         = (\<exists>q. new_rating E req = Some (Num q) \<and> 0 \<le> q \<and> q \<le> 10)"
proof (cases "new_rating E req")
  case None
  with assms show ?thesis by (simp add: edit_def login_required_user edit_view_def)
next
  case (Some r)
  with assms fle_range [of r] show ?thesis
    by (auto simp: edit_def login_required_user edit_view_def)
qed

lemma edit_rating_rejected:
  assumes "current_user st = Some cu" and "owned_book E book_id cu st = Some bk"
    and "\<not> (\<exists>q. new_rating E req = Some (Num q) \<and> 0 \<le> q \<and> q \<le> 10)"
  shows "edit E req book_id st = (st, Render_edit bk)"
proof (cases "new_rating E req")
  case None
  with assms show ?thesis by (simp add: edit_def login_required_user edit_view_def)
next
  case (Some r)
  with assms fle_range [of r] show ?thesis
    by (auto simp: edit_def login_required_user edit_view_def)
qed

lemma BookForm_rating_accepted:
  "(DataRequired_float v \<and> NumberRange 0 10 v) = (\<exists>q. v = Some (Num q) \<and> 0 < q \<and> q \<le> 10)"
proof (cases v)
  case None
  then show ?thesis by (simp add: DataRequired_float_def)
next
  case (Some r)
  then show ?thesis by (cases r) (auto simp: DataRequired_float_def NumberRange_def)
qed

lemma BookForm_validate_iff:
  "BookForm_validate E req =
     (req_csrf req \<and> DataRequired (field req ''name'') \<and> DataRequired (field req ''author'')
      \<and> (\<exists>q. rating_data E req = Some (Num q) \<and> 0 < q \<and> q \<le> 10))"
  using BookForm_rating_accepted [of "rating_data E req"]
  by (auto simp: BookForm_validate_def)

lemma add_invalid_form:
  assumes "current_user st = Some cu" and "\<not> BookForm_validate E req"
  shows "add E req st = (st, Render_add)"
  using assms by (simp add: add_def login_required_user add_view_def)

lemma add_rating_zero_rejected:
  assumes "current_user st = Some cu" and "rating_data E req = Some (Num 0)"
  shows "add E req st = (st, Render_add)"
  using assms by (simp add: add_invalid_form BookForm_validate_iff)

text \<open>
  Claim C3. The rating 0 lies in the closed interval from 0 to 10, and the edit view
  accepts it; the add view rejects it: for the logged-in user Ann, a submission of the
  add form with rating 0 shows the form again and creates no book, while the same
  rating submitted to the edit view of her book is stored.
\<close>

theorem add_rejects_rating_zero:
  "rating_data toy_env add_zero = Some (Num 0)
   \<and> add toy_env add_zero st_ann = (st_ann, Render_add)
   \<and> edit toy_env edit_zero ''1'' st_dune = (st_dune\<lparr>books := [dune\<lparr>b_rating := Num 0\<rparr>]\<rparr>, Redirect Home)"
proof -
  have r: "rating_data toy_env add_zero = Some (Num 0)"
    by (simp add: rating_data_def field_def add_zero_def post_form_def toy_env_def)
  have a: "add toy_env add_zero st_ann = (st_ann, Render_add)"
    using current_user_ann r by (rule add_rating_zero_rejected)
  have o: "owned_book toy_env ''1'' ann st_dune = Some dune"
    by (simp add: owned_book_def toy_env_def st_dune_def dune_def ann_def)
  have n: "new_rating toy_env edit_zero = Some (Num 0)"
    by (simp add: new_rating_def edit_zero_def post_form_def toy_env_def)
  have e: "edit toy_env edit_zero ''1'' st_dune
           = (st_dune\<lparr>books := [dune\<lparr>b_rating := Num 0\<rparr>]\<rparr>, Redirect Home)"
    using o n
    by (simp add: edit_def login_required_user [OF current_user_dune] edit_view_def)
       (simp add: edit_zero_def post_form_def st_dune_def)
  from r a e show ?thesis by simp
qed

subsection \<open>Adding a book\<close>













subsection \<open>Registration\<close>

text \<open>
  Whatever else the submission holds, a registration with the address of a stored user
  creates no user and leaves the session as it was.
\<close>

lemma register_existing_email:
  assumes "list_ex (\<lambda>u. u_email u = data req ''email'') (users st)"
  shows "users (fst (register E req st)) = users st
       \<and> books (fst (register E req st)) = books st
       \<and> session (fst (register E req st)) = session st"
proof -
  from assms obtain u where "find (\<lambda>u. u_email u = data req ''email'') (users st) = Some u"
    by (cases "find (\<lambda>u. u_email u = data req ''email'') (users st)") (auto simp: find_none_conv)
  then show ?thesis by (simp add: register_def)
qed



subsection \<open>Login\<close>



subsection \<open>The users table only grows\<close>

lemma users_login_required:
  "(\<And>cu. users (fst (view cu st)) = users st) \<Longrightarrow> users (fst (login_required view st)) = users st"
  by (simp add: login_required_def split: option.splits)

lemma users_login: "users (fst (login E req st)) = users st"
  by (simp add: login_def login_user_def split: option.splits)

lemma users_add_view: "users (fst (add_view E req cu st)) = users st"
  by (simp add: add_view_def Let_def split: list.splits option.splits)

lemma users_edit_view: "users (fst (edit_view E req book_id cu st)) = users st"
  by (simp add: edit_view_def split: option.splits)

lemma users_delete_view: "users (fst (delete_view E book_id cu st)) = users st"
  by (simp add: delete_view_def split: option.splits)

lemma users_register:
  "users (fst (register E req st)) = users st
   \<or> (\<not> list_ex (\<lambda>u. u_email u = data req ''email'') (users st)
      \<and> users (fst (register E req st)) =
          users st @ [\<lparr>u_id = next_id (map u_id (users st)),
                        u_email = data req ''email'',
                        u_password = generate_password_hash E (req_salt req) (data req ''password''),
                        u_name = data req ''name''\<rparr>])"
  by (simp add: register_def login_user_def find_none_conv [symmetric] split: option.splits)

lemma users_dispatch:
  "users (fst (dispatch E rt req st)) = users st
   \<or> (rt = R_register
      \<and> \<not> list_ex (\<lambda>u. u_email u = data req ''email'') (users st)
      \<and> users (fst (dispatch E rt req st)) =
          users st @ [\<lparr>u_id = next_id (map u_id (users st)),
                        u_email = data req ''email'',
                        u_password = generate_password_hash E (req_salt req) (data req ''password''),
                        u_name = data req ''name''\<rparr>])"
proof (cases rt)
  case R_register
  with users_register [of E req st] show ?thesis by (simp add: dispatch_def)
next
  case R_login
  then show ?thesis by (simp add: dispatch_def users_login)
next
  case R_logout
  then show ?thesis
    by (simp add: dispatch_def logout_def users_login_required logout_user_def)
next
  case R_home
  then show ?thesis by (simp add: dispatch_def home_def split: option.splits)
next
  case R_add
  then show ?thesis by (simp add: dispatch_def add_def users_login_required users_add_view)
next
  case (R_edit x)
  then show ?thesis by (simp add: dispatch_def edit_def users_login_required users_edit_view)
next
  case (R_delete x)
  then show ?thesis by (simp add: dispatch_def delete_def users_login_required users_delete_view)
qed

lemma emails_dispatch:
  assumes "distinct (map u_email (users st))"
  shows "distinct (map u_email (users (fst (dispatch E rt req st))))"
  using users_dispatch [of E rt req st] assms by (fastforce simp: list_ex_iff)

lemma prefix_dispatch: "prefix (users st) (users (fst (dispatch E rt req st)))"
  using users_dispatch [of E rt req st] by auto

text \<open>
  Claim C7. Starting from a store in which no two users share an address, after any
  sequence of requests to any of the routes, under any sessions, no two users share an
  address, and the users of the start are still there, unchanged and in place, as the
  beginning of the table.
\<close>

theorem email_uniqueness_preserved:
  "distinct (map u_email (users st)) \<Longrightarrow>
     distinct (map u_email (users (run E rs st))) \<and> prefix (users st) (users (run E rs st))"
proof (induction rs arbitrary: st)
  case Nil
  then show ?case by simp
next
  case (Cons a rs)
  obtain s rt req where a: "a = (s, rt, req)" by (cases a)
  let ?st1 = "fst (dispatch E rt req (st\<lparr>session := s\<rparr>))"
  have d1: "distinct (map u_email (users ?st1))"
    using Cons.prems emails_dispatch [of "st\<lparr>session := s\<rparr>" E rt req] by simp
  have p1: "prefix (users st) (users ?st1)"
    using prefix_dispatch [of "st\<lparr>session := s\<rparr>" E rt req] by simp
  from Cons.IH [OF d1] p1 show ?case
    by (auto simp: a intro: prefix_order.trans)
qed

theorem email_uniqueness_preserved_witness:
  "distinct (map u_email (users empty_state))
   \<and> distinct (map u_email (users (run toy_env [(None, R_register, register_a),
                                               (None, R_register, register_a)] empty_state)))
   \<and> prefix (users empty_state)
        (users (run toy_env [(None, R_register, register_a), (None, R_register, register_a)] empty_state))"
proof -
  have h: "distinct (map u_email (users empty_state))" by (simp add: empty_state_def)
  from email_uniqueness_preserved
         [OF h, of toy_env "[(None, R_register, register_a), (None, R_register, register_a)]"] h
  show ?thesis by simp
qed

subsection \<open>Stored passwords\<close>

lemma toy_hash_differs: "\<forall>salt pw. generate_password_hash toy_env salt pw \<noteq> pw"
proof (intro allI notI)
  fix salt pw :: string
  assume "generate_password_hash toy_env salt pw = pw"
  then have "length (salt @ ''$'' @ rev pw) = length pw" by (simp add: toy_env_def)
  then show False by simp
qed

text \<open>
  Claim C8. Every request either leaves the users table as it was or is a registration
  that appends one user whose stored password is the output of the hash routine on the
  salt and the submitted password; given that the routine never returns the password it
  is given, the stored value is not the submitted password.
\<close>

theorem passwords_stored_hashed:
  assumes "\<forall>salt pw. generate_password_hash E salt pw \<noteq> pw"
  shows "users (fst (dispatch E rt req st)) = users st
       \<or> (rt = R_register
          \<and> (\<exists>nu. users (fst (dispatch E rt req st)) = users st @ [nu]
                \<and> u_email nu = data req ''email''
                \<and> u_password nu = generate_password_hash E (req_salt req) (data req ''password'')
                \<and> u_password nu \<noteq> data req ''password''))"
  using users_dispatch [of E rt req st] assms by auto

theorem passwords_stored_hashed_witness:
  "(\<forall>salt pw. generate_password_hash toy_env salt pw \<noteq> pw)
   \<and> users (fst (dispatch toy_env R_register register_a empty_state)) = [ann]
   \<and> u_password ann = generate_password_hash toy_env ''NaCl'' ''secret1''
   \<and> u_password ann \<noteq> ''secret1''"
proof -
  have d: "data register_a ''email'' = ''a@x.com''" "data register_a ''password'' = ''secret1''"
      "data register_a ''name'' = ''Ann''" "req_salt register_a = ''NaCl''"
    by (simp_all add: data_def field_def register_a_def post_form_def)
  have r: "users (fst (dispatch toy_env R_register register_a empty_state)) = [ann]"
    by (simp add: dispatch_def register_a_run st_ann_def)
  have e: "users empty_state = []" by (simp add: empty_state_def)
  have "u_password ann = generate_password_hash toy_env ''NaCl'' ''secret1''
        \<and> u_password ann \<noteq> ''secret1''"
    using passwords_stored_hashed [OF toy_hash_differs, of R_register register_a empty_state]
    by (auto simp: r d e)
  with toy_hash_differs r show ?thesis by simp
qed

subsection \<open>What a successful edit and delete change\<close>

text \<open>
  Book identifiers stay unique: a new book gets an identifier above all stored ones, an
  edit keeps the identifiers and a delete only removes rows.
\<close>

lemma ids_rating_update:
  "map (b_id \<circ> (\<lambda>b. if c b then b\<lparr>b_rating := r\<rparr> else b)) bs = map b_id bs"
  by (induction bs) auto

lemma ids_add_view:
  assumes "distinct (map b_id (books st))"
  shows "distinct (map b_id (books (fst (add_view E req cu st))))"
  using assms next_id_fresh [of "map b_id (books st)"]
  by (simp add: add_view_def Let_def split: list.splits option.splits)

lemma ids_edit_view:
  "distinct (map b_id (books st)) \<Longrightarrow>
     distinct (map b_id (books (fst (edit_view E req book_id cu st))))"
  by (simp add: edit_view_def ids_rating_update split: option.splits)

lemma ids_delete_view:
  "distinct (map b_id (books st)) \<Longrightarrow>
     distinct (map b_id (books (fst (delete_view E book_id cu st))))"
  by (simp add: delete_view_def distinct_map_filter split: option.splits)

lemma ids_dispatch:
  assumes "distinct (map b_id (books st))"
  shows "distinct (map b_id (books (fst (dispatch E rt req st))))"
proof (cases rt)
  case R_register
  with assms show ?thesis
    by (simp add: dispatch_def register_def login_user_def split: option.splits)
next
  case R_login
  with assms show ?thesis
    by (simp add: dispatch_def login_def login_user_def split: option.splits)
next
  case R_logout
  with assms show ?thesis
    by (simp add: dispatch_def logout_def login_required_def logout_user_def split: option.splits)
next
  case R_home
  with assms show ?thesis by (simp add: dispatch_def home_def split: option.splits)
next
  case R_add
  with assms ids_add_view [OF assms] show ?thesis
    by (simp add: dispatch_def add_def login_required_def split: option.splits)
next
  case (R_edit x)
  with assms ids_edit_view [OF assms] show ?thesis
    by (simp add: dispatch_def edit_def login_required_def split: option.splits)
next
  case (R_delete x)
  with assms ids_delete_view [OF assms] show ?thesis
    by (simp add: dispatch_def delete_def login_required_def split: option.splits)
qed

lemma ids_run:
  "distinct (map b_id (books st)) \<Longrightarrow> distinct (map b_id (books (run E rs st)))"
proof (induction rs arbitrary: st)
  case Nil
  then show ?case by simp
next
  case (Cons a rs)
  obtain s rt req where a: "a = (s, rt, req)" by (cases a)
  have "distinct (map b_id (books (fst (dispatch E rt req (st\<lparr>session := s\<rparr>)))))"
    using Cons.prems ids_dispatch [of "st\<lparr>session := s\<rparr>" E rt req] by simp
  from Cons.IH [OF this] show ?case by (simp add: a)
qed

text \<open>
  Claim C9. On a store with unique book identifiers, for the current user's book that
  the route names: delete removes that one row and leaves every other row of the books
  table in place; an edit with an accepted rating replaces that one row by itself with
  the new rating (identifier, title, author and owner as before) and leaves every other
  row in place; users, session and flashed messages are unchanged by both.
\<close>

theorem edit_delete_frame:
  assumes "distinct (map b_id (books st))"
    and "current_user st = Some cu"
    and "bk \<in> set (books st)"
    and "sql_int E book_id = Some (b_id bk) \<and> b_user_id bk = u_id cu"
  shows "\<exists>pre post. books st = pre @ bk # post
           \<and> delete E book_id st = (st\<lparr>books := pre @ post\<rparr>, Redirect Home)
           \<and> (req_method req = POST \<and> new_rating E req = Some r \<and> fle (Num 0) r \<and> fle r (Num 10)
                \<longrightarrow> edit E req book_id st = (st\<lparr>books := pre @ bk\<lparr>b_rating := r\<rparr> # post\<rparr>, Redirect Home))"
proof -
  have found: "owned_book E book_id cu st = Some bk"
    unfolding owned_book_def
    using assms(1,3,4) by (rule find_unique) (use assms(4) in simp)
  from assms(3) obtain pre post where split: "books st = pre @ bk # post"
    by (auto simp: in_set_conv_decomp)
  have d: "distinct (map b_id (pre @ bk # post))"
    using assms(1) split by simp
  have "delete E book_id st = (st\<lparr>books := pre @ post\<rparr>, Redirect Home)"
    using found assms(2) delete_row [OF d]
    by (simp add: delete_def login_required_user delete_view_def split)
  moreover have "req_method req = POST \<and> new_rating E req = Some r \<and> fle (Num 0) r \<and> fle r (Num 10)
      \<longrightarrow> edit E req book_id st = (st\<lparr>books := pre @ bk\<lparr>b_rating := r\<rparr> # post\<rparr>, Redirect Home)"
    using found assms(2) update_row [OF d, of "\<lambda>b. b\<lparr>b_rating := r\<rparr>"]
    by (simp add: edit_def login_required_user edit_view_def split)
  ultimately show ?thesis using split by blast
qed

theorem edit_delete_frame_witness:
  "distinct (map b_id (books st_dune))
   \<and> current_user st_dune = Some ann
   \<and> dune \<in> set (books st_dune)
   \<and> sql_int toy_env ''1'' = Some (b_id dune) \<and> b_user_id dune = u_id ann
   \<and> delete toy_env ''1'' st_dune = (st_dune\<lparr>books := []\<rparr>, Redirect Home)
   \<and> edit toy_env edit_7 ''1'' st_dune = (st_dune\<lparr>books := [dune\<lparr>b_rating := Num 7\<rparr>]\<rparr>, Redirect Home)"
proof -
  have h1: "distinct (map b_id (books st_dune))" by (simp add: st_dune_def)
  have h3: "dune \<in> set (books st_dune)" by (simp add: st_dune_def)
  have h4: "sql_int toy_env ''1'' = Some (b_id dune) \<and> b_user_id dune = u_id ann"
    by (simp add: toy_env_def dune_def ann_def)
  have n: "req_method edit_7 = POST \<and> new_rating toy_env edit_7 = Some (Num 7)
           \<and> fle (Num 0) (Num 7) \<and> fle (Num 7) (Num 10)"
    by (simp add: new_rating_def edit_7_def post_form_def toy_env_def)
  from edit_delete_frame [OF h1 current_user_dune h3 h4, of edit_7 "Num 7"] n
  obtain pre post where pp: "books st_dune = pre @ dune # post"
      "delete toy_env ''1'' st_dune = (st_dune\<lparr>books := pre @ post\<rparr>, Redirect Home)"
      "edit toy_env edit_7 ''1'' st_dune = (st_dune\<lparr>books := pre @ dune\<lparr>b_rating := Num 7\<rparr> # post\<rparr>, Redirect Home)"
    by blast
  from pp(1) have "pre = [] \<and> post = []"
    by (simp add: st_dune_def Cons_eq_append_conv)
  with pp h1 current_user_dune h3 h4 show ?thesis by simp
qed

subsection \<open>The constraints of the registration form\<close>

text \<open>
  Claim C10. A registration whose password has fewer than 6 characters, or whose name
  has fewer than 2 or more than 100 characters, shows the registration form again: no
  user is created and no session is set, the state is as before.
\<close>

theorem register_form_constraints:
  assumes "length (data req ''password'') < 6 \<or> length (data req ''name'') < 2
           \<or> 100 < length (data req ''name'')"
  shows "register E req st = (st, Render_register)"
proof -
  have "\<not> RegisterForm_validate E req"
    using assms
    by (auto simp: RegisterForm_validate_def Length_def data_def split: option.splits)
  then show ?thesis by (simp add: register_def)
qed

theorem register_form_constraints_witness:
  "length (data short_pw ''password'') < 6
   \<and> register toy_env short_pw empty_state = (empty_state, Render_register)"
proof -
  have h: "length (data short_pw ''password'') < 6"
    by (simp add: data_def field_def short_pw_def post_form_def)
  then have "length (data short_pw ''password'') < 6 \<or> length (data short_pw ''name'') < 2
           \<or> 100 < length (data short_pw ''name'')" by simp
  from register_form_constraints [OF this, of toy_env empty_state] h show ?thesis by simp
qed

end
